theory Spec2Isabelle
  imports Complex_Main
begin

section \<open>Data model\<close>

text \<open>
  The game-state module (\<^verbatim>\<open>game.py\<close>) and the rules module (\<^verbatim>\<open>rules.py\<close>) are
  collaborators of the two modules verified here. Their value types are declared below
  with the attributes that \<^verbatim>\<open>reward.py\<close> and \<^verbatim>\<open>source.py\<close> read.
\<close>

text \<open>
  Modelled from the spec: the \<^verbatim>\<open>Position\<close> type of the game-state module. A pawn is in
  start, on a numbered square, on a numbered square of its safe zone, or in home;
  \<^verbatim>\<open>safe\<close> is \<^verbatim>\<open>None\<close> when the pawn is not in the safe zone.
\<close>

record position =
  start :: bool
  home :: bool
  safe :: "nat option"
  square :: "nat option"

text \<open>Modelled from the spec: the \<^verbatim>\<open>Pawn\<close> type; a pawn has a position.\<close>

record pawn =
  pawn_index :: nat
  position :: position

text \<open>
  Modelled from the spec: the \<^verbatim>\<open>Player\<close> type, a colour and a collection of pawns.
\<close>

record player =
  color :: string
  pawns :: "pawn list"

text \<open>
  Modelled from the spec: the \<^verbatim>\<open>PlayerView\<close> type, the acting player and the dictionary
  of its opponents by colour. The dictionary is an association list in insertion order;
  a dictionary has each key once, which \<open>wf_view\<close> records.
\<close>

record player_view =
  player :: player
  opponents :: "(string \<times> player) list"

definition wf_view :: "player_view \<Rightarrow> bool" where
  "wf_view view \<longleftrightarrow>
     distinct (map fst (opponents view)) \<and> color (player view) \<notin> set (map fst (opponents view))"

text \<open>
  Modelled from the spec: the method \<^verbatim>\<open>Player.all_pawns_in_home\<close> of the game-state
  module, the derived predicate "all pawns in home" (the win condition).
\<close>

definition all_pawns_in_home :: "player \<Rightarrow> bool" where
  "all_pawns_in_home p = list_all (\<lambda>pw. home (position pw)) (pawns p)"

datatype game_mode = STANDARD | ADULT

datatype error = IndexError | TypeError | ValueError string

section \<open>reward.py: RewardCalculatorV1\<close>

text \<open>
  \<^verbatim>\<open>BoardRules.distance_to_home\<close> belongs to the rules module; every function that calls
  it takes it as the parameter \<open>distance_to_home\<close>. Python integers are unbounded and
  are modelled by \<open>int\<close>. The conversion \<^verbatim>\<open>float(n)\<close> of an integer is modelled by the
  embedding of \<open>int\<close> into \<open>real\<close>, which is what the conversion computes for every
  integer of magnitude up to \<open>2^53\<close>.
\<close>

definition distance_incentive :: "(pawn \<Rightarrow> int) \<Rightarrow> player \<Rightarrow> int" where
  "distance_incentive distance_to_home p =
     (let distance = sum_list (map distance_to_home (pawns p)) in 260 - distance)"

definition safe_incentive :: "player \<Rightarrow> int" where
  "safe_incentive p =
     sum_list (map (\<lambda>pw. if home (position pw) \<or> safe (position pw) \<noteq> None then 10 else 0)
                   (pawns p))"

definition winner_incentive :: "player \<Rightarrow> int" where
  "winner_incentive p = (if all_pawns_in_home p then 100 else 0)"

definition player_score :: "(pawn \<Rightarrow> int) \<Rightarrow> player \<Rightarrow> int" where
  "player_score distance_to_home p =
     distance_incentive distance_to_home p + safe_incentive p + winner_incentive p"

text \<open>
  The list \<^verbatim>\<open>opponent_scores\<close> of \<^verbatim>\<open>_reward\<close>: the score of every value of the
  dictionary of opponents.
\<close>

definition opponent_scores :: "(pawn \<Rightarrow> int) \<Rightarrow> player_view \<Rightarrow> int list" where
  "opponent_scores distance_to_home view =
     map (player_score distance_to_home) (map snd (opponents view))"

definition reward :: "(pawn \<Rightarrow> int) \<Rightarrow> player_view \<Rightarrow> int" where
  "reward distance_to_home view =
     (let score = player_score distance_to_home (player view);
          r = int (length (opponents view)) * score
                - sum_list (opponent_scores distance_to_home view)
      in if r < 0 then 0 else r)"

definition calculate :: "(pawn \<Rightarrow> int) \<Rightarrow> player_view \<Rightarrow> real" where
  "calculate distance_to_home view = real_of_int (reward distance_to_home view)"

definition range_V1 :: "int \<Rightarrow> real \<times> real" where
  "range_V1 players = (0, real_of_int ((players - 1) * 400))"

section \<open>source.py: character input sources\<close>

text \<open>
  \<^verbatim>\<open>random.choice(seq)\<close> draws an index below \<^verbatim>\<open>len(seq)\<close> from the generator and
  raises \<^verbatim>\<open>IndexError\<close> on an empty sequence, before it draws. The generator is the
  state \<open>g\<close>, threaded through the call; its draw is the parameter \<open>randbelow\<close>.
\<close>

definition random_choice :: "('g \<Rightarrow> nat \<Rightarrow> nat \<times> 'g) \<Rightarrow> 'g \<Rightarrow> 'a list \<Rightarrow> (error + 'a) \<times> 'g" where
  "random_choice randbelow g seq =
     (if seq = [] then (Inl IndexError, g)
      else (let (i, g') = randbelow g (length seq)
            in (if i < length seq then Inr (seq ! i) else Inl IndexError, g')))"

definition RandomInputSource_choose_move ::
  "('g \<Rightarrow> nat \<Rightarrow> nat \<times> 'g) \<Rightarrow> 'g \<Rightarrow> game_mode \<Rightarrow> player_view \<Rightarrow> 'm list \<Rightarrow>
     (player_view \<Rightarrow> 'm \<Rightarrow> player_view) \<Rightarrow> (error + 'm) \<times> 'g" where
  "RandomInputSource_choose_move randbelow g mode view legal_moves unused =
     random_choice randbelow g legal_moves"

text \<open>
  \<^verbatim>\<open>list.sort(reverse=True, key=k)\<close> is a stable sort that keeps the original order of
  elements with equal keys: the list is reversed, sorted by a stable ascending sort and
  reversed again. \<open>sort_key\<close> is the stable insertion sort of the list library.
\<close>

definition sort_reverse :: "('a \<Rightarrow> real) \<Rightarrow> 'a list \<Rightarrow> 'a list" where
  "sort_reverse key xs = rev (sort_key key (rev xs))"

text \<open>
  \<^verbatim>\<open>RewardInputSource.choose_move\<close>; the abstract method \<^verbatim>\<open>calculate\<close> of the class is
  the parameter \<open>calc\<close>. Reading index 0 of an empty list raises \<^verbatim>\<open>IndexError\<close>.
\<close>

definition RewardInputSource_choose_move ::
  "(player_view \<Rightarrow> 'm \<Rightarrow> (player_view \<Rightarrow> 'm \<Rightarrow> player_view) \<Rightarrow> 'm \<times> real) \<Rightarrow>
     game_mode \<Rightarrow> player_view \<Rightarrow> 'm list \<Rightarrow> (player_view \<Rightarrow> 'm \<Rightarrow> player_view) \<Rightarrow> error + 'm" where
  "RewardInputSource_choose_move calc mode view legal_moves evaluator =
     (let evaluated = map (\<lambda>move. calc view move evaluator) legal_moves;
          evaluated = sort_reverse snd evaluated
      in case evaluated of [] \<Rightarrow> Inl IndexError | e # _ \<Rightarrow> Inr (fst e))"

definition RewardV1InputSource_calculate ::
  "(pawn \<Rightarrow> int) \<Rightarrow> player_view \<Rightarrow> 'm \<Rightarrow> (player_view \<Rightarrow> 'm \<Rightarrow> player_view) \<Rightarrow> 'm \<times> real" where
  "RewardV1InputSource_calculate distance_to_home view move evaluator =
     (move, calculate distance_to_home (evaluator view move))"

definition RewardV1InputSource_choose_move ::
  "(pawn \<Rightarrow> int) \<Rightarrow> game_mode \<Rightarrow> player_view \<Rightarrow> 'm list \<Rightarrow>
     (player_view \<Rightarrow> 'm \<Rightarrow> player_view) \<Rightarrow> error + 'm" where
  "RewardV1InputSource_choose_move distance_to_home =
     RewardInputSource_choose_move (RewardV1InputSource_calculate distance_to_home)"

text \<open>
  The factory \<^verbatim>\<open>source(name)\<close>. \<^verbatim>\<open>pydoc.locate(name)\<close> returns the object that the
  dotted name resolves to, or \<^verbatim>\<open>None\<close>; it is the parameter \<open>locate\<close>. Of a class the
  model keeps its name, whether \<^verbatim>\<open>issubclass(cls, CharacterInputSource)\<close> holds and
  whether it still has abstract methods. \<^verbatim>\<open>issubclass\<close> raises \<^verbatim>\<open>TypeError\<close> when its
  first argument is not a class, and calling an abstract class raises \<^verbatim>\<open>TypeError\<close>.
\<close>

record py_class =
  class_name :: string
  is_CharacterInputSource :: bool
  is_abstract :: bool

datatype py_object = PyNone | NotAClass | Class py_class

definition source :: "(string \<Rightarrow> py_object) \<Rightarrow> string \<Rightarrow> error + py_class" where
  "source locate name =
     (case locate name of
        Class cls \<Rightarrow>
          if \<not> is_CharacterInputSource cls
          then Inl (ValueError (name @ '' is not a CharacterInputSource''))
          else if is_abstract cls then Inl TypeError else Inr cls
      | _ \<Rightarrow> Inl TypeError)"

text \<open>
  The names that the two modules define, as \<^verbatim>\<open>pydoc.locate\<close> resolves them: the classes
  of \<^verbatim>\<open>source.py\<close> and \<^verbatim>\<open>reward.py\<close> and the function \<^verbatim>\<open>source\<close>; any other name
  resolves to \<^verbatim>\<open>None\<close>.
\<close>

definition apologies_locate :: "string \<Rightarrow> py_object" where
  "apologies_locate name =
     (if name = ''apologies.source.CharacterInputSource''
      then Class \<lparr>class_name = name, is_CharacterInputSource = True, is_abstract = True\<rparr>
      else if name = ''apologies.source.RandomInputSource''
      then Class \<lparr>class_name = name, is_CharacterInputSource = True, is_abstract = False\<rparr>
      else if name = ''apologies.source.RewardInputSource''
      then Class \<lparr>class_name = name, is_CharacterInputSource = True, is_abstract = True\<rparr>
      else if name = ''apologies.source.RewardV1InputSource''
      then Class \<lparr>class_name = name, is_CharacterInputSource = True, is_abstract = False\<rparr>
      else if name = ''apologies.reward.RewardCalculator''
      then Class \<lparr>class_name = name, is_CharacterInputSource = False, is_abstract = True\<rparr>
      else if name = ''apologies.reward.RewardCalculatorV1''
      then Class \<lparr>class_name = name, is_CharacterInputSource = False, is_abstract = False\<rparr>
      else if name = ''apologies.source.source'' then NotAClass
      else PyNone)"

section \<open>Sample positions\<close>

text \<open>
  Concrete pawns, players and views at which the theorems below are instantiated. The
  sample distance function reads the distance off the square of a pawn.
\<close>

definition pawn_on :: "nat \<Rightarrow> nat \<Rightarrow> pawn" where
  "pawn_on i q =
     \<lparr>pawn_index = i, position = \<lparr>start = False, home = False, safe = None, square = Some q\<rparr>\<rparr>"

definition pawn_home :: "nat \<Rightarrow> pawn" where
  "pawn_home i =
     \<lparr>pawn_index = i, position = \<lparr>start = False, home = True, safe = None, square = None\<rparr>\<rparr>"

definition square_distance :: "pawn \<Rightarrow> int" where
  "square_distance pw = (case square (position pw) of None \<Rightarrow> 0 | Some q \<Rightarrow> 65 - int q)"

definition player_on :: "string \<Rightarrow> nat \<Rightarrow> nat \<Rightarrow> nat \<Rightarrow> nat \<Rightarrow> player" where
  "player_on c q0 q1 q2 q3 =
     \<lparr>color = c, pawns = [pawn_on 0 q0, pawn_on 1 q1, pawn_on 2 q2, pawn_on 3 q3]\<rparr>"

definition player_home :: "string \<Rightarrow> player" where
  "player_home c = \<lparr>color = c, pawns = [pawn_home 0, pawn_home 1, pawn_home 2, pawn_home 3]\<rparr>"

definition view_two_players :: player_view where
  "view_two_players =
     \<lparr>player = player_on ''RED'' 75 75 75 75,
      opponents = [(''BLUE'', player_on ''BLUE'' 25 25 25 25)]\<rparr>"

definition view_three_players :: player_view where
  "view_three_players =
     \<lparr>player = player_on ''RED'' 25 25 25 25,
      opponents = [(''YELLOW'', player_on ''YELLOW'' 25 25 50 50),
                   (''BLUE'', player_on ''BLUE'' 50 50 50 50)]\<rparr>"

definition view_four_players :: player_view where
  "view_four_players =
     \<lparr>player = player_on ''RED'' 60 60 60 60,
      opponents = [(''YELLOW'', player_on ''YELLOW'' 25 25 50 50),
                   (''GREEN'', player_on ''GREEN'' 0 0 0 0),
                   (''BLUE'', player_on ''BLUE'' 50 50 50 50)]\<rparr>"

text \<open>
  A two-player view and a sample evaluator: the move \<open>(k, q)\<close> puts pawn \<open>k\<close> of the
  acting player on square \<open>q\<close>.
\<close>

definition view_duel :: player_view where
  "view_duel =
     \<lparr>player = player_on ''RED'' 25 25 25 25,
      opponents = [(''BLUE'', player_on ''BLUE'' 25 25 25 25)]\<rparr>"

definition advance :: "player_view \<Rightarrow> nat \<times> nat \<Rightarrow> player_view" where
  "advance view move =
     view\<lparr>player := (player view)\<lparr>pawns := (pawns (player view))[fst move := pawn_on (fst move) (snd move)]\<rparr>\<rparr>"

section \<open>Auxiliary facts\<close>

lemma sample_scores:
  "player_score square_distance (player_on c 75 75 75 75) = 300"
  "player_score square_distance (player_on c 25 25 25 25) = 100"
  "player_score square_distance (player_on c 25 25 50 50) = 150"
  "player_score square_distance (player_on c 50 50 50 50) = 200"
  by (simp_all add: player_score_def distance_incentive_def safe_incentive_def
      winner_incentive_def all_pawns_in_home_def player_on_def pawn_on_def square_distance_def)

lemma sum_list_flag_count:
  "sum_list (map (\<lambda>x. if P x then (10::int) else 0) xs) = 10 * int (length (filter P xs))"
  by (induction xs) simp_all

lemma safe_incentive_count:
  "safe_incentive p =
     10 * int (length (filter (\<lambda>pw. home (position pw) \<or> safe (position pw) \<noteq> None) (pawns p)))"
  unfolding safe_incentive_def by (rule sum_list_flag_count)

lemma sum_list_all_zero: "\<forall>x\<in>set xs. f x = (0::int) \<Longrightarrow> sum_list (map f xs) = 0"
  by (induction xs) simp_all

lemma filter_all: "\<forall>x\<in>set xs. P x \<Longrightarrow> filter P xs = xs"
  by (induction xs) simp_all

lemma reward_eq_max:
  "reward d view =
     max 0 (int (length (opponents view)) * player_score d (player view)
              - sum_list (opponent_scores d view))"
  by (simp add: reward_def Let_def max_def)

lemma sum_list_bounds:
  "\<forall>x\<in>set xs. lo \<le> f x \<and> f x \<le> hi \<Longrightarrow>
     lo * int (length xs) \<le> sum_list (map f xs) \<and> sum_list (map f xs) \<le> (hi::int) * int (length xs)"
  by (induction xs) (simp_all add: algebra_simps)

lemma sum_list_map_update:
  "i < length xs \<Longrightarrow>
     sum_list (map f (xs[i := y])) = sum_list (map f xs) - f (xs ! i) + (f y :: int)"
proof (induction xs arbitrary: i)
  case Nil
  then show ?case by simp
next
  case (Cons x xs)
  then show ?case by (cases i) simp_all
qed

lemma map_update_same: "i < length xs \<Longrightarrow> g y = g (xs ! i) \<Longrightarrow> map g (xs[i := y]) = map g xs"
  by (simp add: map_update list_update_same_conv)

lemma distance_incentive_bounds:
  assumes "length (pawns p) = 4" and "\<forall>pw\<in>set (pawns p). 0 \<le> d pw \<and> d pw \<le> 65"
  shows "0 \<le> distance_incentive d p \<and> distance_incentive d p \<le> 260"
  using sum_list_bounds [of "pawns p" 0 d 65] assms by (simp add: distance_incentive_def)

lemma safe_incentive_bounds:
  "0 \<le> safe_incentive p \<and> safe_incentive p \<le> 10 * int (length (pawns p))"
  unfolding safe_incentive_count by simp

lemma winner_incentive_bounds: "0 \<le> winner_incentive p \<and> winner_incentive p \<le> 100"
  by (simp add: winner_incentive_def)

lemma player_score_bounds:
  assumes "length (pawns p) = 4" and "\<forall>pw\<in>set (pawns p). 0 \<le> d pw \<and> d pw \<le> 65"
  shows "0 \<le> player_score d p \<and> player_score d p \<le> 400"
  using distance_incentive_bounds [OF assms] safe_incentive_bounds [of p]
    winner_incentive_bounds [of p] assms(1)
  by (simp add: player_score_def)

lemma sample_views_wf:
  "wf_view view_two_players" "wf_view view_three_players" "wf_view view_four_players"
  "wf_view view_duel"
  by (simp_all add: wf_view_def view_two_players_def view_three_players_def
      view_four_players_def view_duel_def player_on_def)

lemma advance_rewards:
  "calculate square_distance (advance view_duel (0, 30)) = 5"
  "calculate square_distance (advance view_duel (0, 40)) = 15"
  "calculate square_distance (advance view_duel (1, 40)) = 15"
  "calculate square_distance (advance view_duel (Suc 0, 40)) = 15"
  "calculate square_distance (advance view_duel (2, 10)) = 0"
  "calculate square_distance (advance view_duel (3, 60)) = 35"
  by (simp_all add: calculate_def reward_def opponent_scores_def advance_def view_duel_def
      player_score_def distance_incentive_def safe_incentive_def winner_incentive_def
      all_pawns_in_home_def player_on_def pawn_on_def square_distance_def)

subsection \<open>The stable descending sort\<close>

lemma last_filter_keep: "xs \<noteq> [] \<Longrightarrow> P (last xs) \<Longrightarrow> last (filter P xs) = last xs"
proof (induction xs)
  case Nil
  then show ?case by simp
next
  case (Cons a xs)
  show ?case
  proof (cases "xs = []")
    case True
    with Cons.prems show ?thesis by simp
  next
    case False
    with Cons.prems have p: "P (last xs)"
      by simp
    with False have "filter P xs \<noteq> []"
      by (auto simp: filter_empty_conv intro: last_in_set)
    with Cons.IH [OF False p] False show ?thesis
      by simp
  qed
qed

lemma sorted_le_last: "sorted xs \<Longrightarrow> x \<in> set xs \<Longrightarrow> x \<le> last xs"
proof (induction xs)
  case Nil
  then show ?case by simp
next
  case (Cons a xs)
  show ?case
  proof (cases "xs = []")
    case True
    with Cons.prems show ?thesis by simp
  next
    case False
    then have "last xs \<in> set xs"
      by (rule last_in_set)
    with Cons False show ?thesis
      by auto
  qed
qed

lemma last_sort_key_greatest:
  assumes "x \<in> set xs"
  shows "f x \<le> f (last (sort_key f xs))"
proof -
  have ne: "sort_key f xs \<noteq> []"
    using assms by (metis empty_iff list.set(1) set_sort)
  have "f x \<in> set (map f (sort_key f xs))"
    using assms by simp
  with sorted_sort_key [of f xs] have "f x \<le> last (map f (sort_key f xs))"
    by (rule sorted_le_last)
  then show ?thesis
    using ne by (simp add: last_map)
qed

lemma sort_reverse_stable:
  "filter (\<lambda>y. key y = k) (sort_reverse key xs) = filter (\<lambda>y. key y = k) xs"
  by (simp add: sort_reverse_def rev_filter [symmetric] sort_key_stable)

lemma sort_reverse_Nil_iff: "sort_reverse key xs = [] \<longleftrightarrow> xs = []"
  by (metis length_0_conv length_rev length_sort sort_reverse_def)

lemma hd_sort_reverse:
  assumes "xs \<noteq> []"
  shows "\<exists>us x vs. xs = us @ x # vs \<and> hd (sort_reverse key xs) = x
           \<and> (\<forall>u\<in>set us. key u < key x) \<and> (\<forall>v\<in>set vs. key v \<le> key x)"
proof -
  let ?ys = "sort_key key (rev xs)"
  let ?m = "last ?ys"
  let ?P = "\<lambda>y. key y = key ?m"
  have ne: "?ys \<noteq> []"
    using assms by (metis length_0_conv length_rev length_sort)
  then have mem: "?m \<in> set xs"
    using last_in_set [OF ne] by simp
  have greatest: "\<forall>x\<in>set xs. key x \<le> key ?m"
    using last_sort_key_greatest [of _ "rev xs" key] by simp
  have "?m = last (filter ?P ?ys)"
    using ne by (simp add: last_filter_keep)
  also have "\<dots> = last (filter ?P (rev xs))"
    by (simp only: sort_key_stable)
  also have "\<dots> = hd (filter ?P xs)"
    by (simp add: rev_filter [symmetric] last_rev)
  finally have m: "?m = hd (filter ?P xs)" .
  from mem have "\<exists>x\<in>set xs. ?P x"
    by blast
  then obtain us x vs where split: "xs = us @ x # vs" and px: "?P x" and nus: "\<forall>u\<in>set us. \<not> ?P u"
    by (rule split_list_first_propE)
  have "filter ?P xs = x # filter ?P vs"
    using px nus by (simp add: split)
  with m have mx: "?m = x"
    by simp
  have "hd (sort_reverse key xs) = x"
    by (simp add: sort_reverse_def hd_rev mx)
  moreover have "\<forall>u\<in>set us. key u < key x"
    using nus greatest mx split by (auto simp: less_le)
  moreover have "\<forall>v\<in>set vs. key v \<le> key x"
    using greatest mx split by auto
  ultimately show ?thesis
    using split by blast
qed

lemma choose_move_first_max:
  assumes "legal_moves \<noteq> []"
  shows "\<exists>i<length legal_moves.
           RewardInputSource_choose_move calc mode view legal_moves evaluator
             = Inr (fst (calc view (legal_moves ! i) evaluator))
           \<and> (\<forall>j<length legal_moves. snd (calc view (legal_moves ! j) evaluator)
                                        \<le> snd (calc view (legal_moves ! i) evaluator))
           \<and> (\<forall>j<i. snd (calc view (legal_moves ! j) evaluator)
                       < snd (calc view (legal_moves ! i) evaluator))"
proof -
  let ?c = "\<lambda>move. calc view move evaluator"
  let ?ev = "map ?c legal_moves"
  have ne: "?ev \<noteq> []"
    using assms by simp
  from hd_sort_reverse [OF ne, of snd]
  obtain us x vs where split: "?ev = us @ x # vs" and hd: "hd (sort_reverse snd ?ev) = x"
    and before: "\<forall>u\<in>set us. snd u < snd x" and after: "\<forall>v\<in>set vs. snd v \<le> snd x"
    by blast
  let ?i = "length us"
  have len: "length ?ev = length us + Suc (length vs)"
    by (simp only: split length_append list.size)
  then have i: "?i < length legal_moves"
    by simp
  have nth: "?ev ! j = ?c (legal_moves ! j)" if "j < length legal_moves" for j
    using that by simp
  have x: "x = ?c (legal_moves ! ?i)"
    using nth [OF i] by (simp add: split)
  have all: "\<forall>e\<in>set ?ev. snd e \<le> snd x"
    using before after by (auto simp only: split set_append set_simps less_le)
  have "sort_reverse snd ?ev \<noteq> []"
    using ne by (simp add: sort_reverse_Nil_iff)
  then have res: "RewardInputSource_choose_move calc mode view legal_moves evaluator = Inr (fst x)"
    using hd by (auto simp: RewardInputSource_choose_move_def Let_def split: list.splits)
  have le: "snd (?c (legal_moves ! j)) \<le> snd (?c (legal_moves ! ?i))" if "j < length legal_moves" for j
  proof -
    have "legal_moves ! j \<in> set legal_moves"
      using that by (rule nth_mem)
    then have "?c (legal_moves ! j) \<in> set ?ev"
      by simp
    with all have "snd (?c (legal_moves ! j)) \<le> snd x"
      by (rule bspec)
    then show ?thesis
      by (simp only: x)
  qed
  have lt: "snd (?c (legal_moves ! j)) < snd (?c (legal_moves ! ?i))" if "j < ?i" for j
  proof -
    have "?ev ! j = us ! j"
      using that by (simp only: split nth_append if_True)
    moreover have "us ! j \<in> set us"
      using that by simp
    ultimately show ?thesis
      using before nth [of j] that i x by simp
  qed
  from i res le lt x show ?thesis
    by blast
qed

section \<open>The reward calculator\<close>

text \<open>
  C1. For a view with at least one opponent, \<^verbatim>\<open>calculate(view)\<close> is the clamped
  comparative reward: with \<open>S\<close> the score of the acting player and \<open>O1..Ok\<close> the scores
  of the \<open>k\<close> opponents, all by the same scoring function, the result is
  \<^verbatim>\<open>float(max(0, k*S - (O1+...+Ok)))\<close>. With scores 300 against one opponent of score
  100 the reward is 200; with score 100 against opponents of scores 150 and 200 the raw
  value -150 is clamped to 0.
\<close>

theorem calculate_clamped_comparative:
  assumes "opponents view \<noteq> []"
  shows "calculate d view =
           real_of_int (max 0 (int (length (opponents view)) * player_score d (player view)
                                 - sum_list (map (\<lambda>(c, p). player_score d p) (opponents view))))
         \<and> (player_score d (player view) = 300 \<and> opponent_scores d view = [100]
              \<longrightarrow> calculate d view = 200)
         \<and> (player_score d (player view) = 100 \<and> opponent_scores d view = [150, 200]
              \<longrightarrow> int (length (opponents view)) * player_score d (player view)
                     - sum_list (opponent_scores d view) = - 150
                   \<and> calculate d view = 0)"
proof -
  have same: "map (\<lambda>(c, p). player_score d p) (opponents view) = opponent_scores d view"
    by (simp add: opponent_scores_def case_prod_unfold comp_def)
  have len: "length (opponent_scores d view) = length (opponents view)"
    by (simp add: opponent_scores_def)
  have general: "calculate d view =
      real_of_int (max 0 (int (length (opponents view)) * player_score d (player view)
                            - sum_list (opponent_scores d view)))"
    by (simp only: calculate_def reward_eq_max)
  have two: "calculate d view = 200"
    if "player_score d (player view) = 300" "opponent_scores d view = [100]"
    using that len by (simp add: general)
  have three: "int (length (opponents view)) * player_score d (player view)
                 - sum_list (opponent_scores d view) = - 150 \<and> calculate d view = 0"
    if "player_score d (player view) = 100" "opponent_scores d view = [150, 200]"
    using that len by (simp add: general)
  show ?thesis
    unfolding same using general two three by blast
qed

theorem calculate_clamped_comparative_witness:
  "opponents view_two_players \<noteq> [] \<and> opponents view_three_players \<noteq> []
   \<and> player_score square_distance (player view_two_players) = 300
   \<and> opponent_scores square_distance view_two_players = [100]
   \<and> calculate square_distance view_two_players = 200
   \<and> player_score square_distance (player view_three_players) = 100
   \<and> opponent_scores square_distance view_three_players = [150, 200]
   \<and> calculate square_distance view_three_players = 0"
proof -
  have a: "opponents view_two_players \<noteq> []" and b: "opponents view_three_players \<noteq> []"
    by (simp_all add: view_two_players_def view_three_players_def)
  have sa: "player_score square_distance (player view_two_players) = 300"
    and oa: "opponent_scores square_distance view_two_players = [100]"
    and sb: "player_score square_distance (player view_three_players) = 100"
    and ob: "opponent_scores square_distance view_three_players = [150, 200]"
    by (simp_all add: view_two_players_def view_three_players_def opponent_scores_def sample_scores)
  from calculate_clamped_comparative [OF a, of square_distance]
       calculate_clamped_comparative [OF b, of square_distance] a b sa oa sb ob
  show ?thesis by blast
qed

text \<open>
  C2. The score of a player is the sum of three terms: 260 minus the sum of
  \<^verbatim>\<open>distance_to_home\<close> over the pawns of the player, 10 points for each pawn that is
  home or whose \<^verbatim>\<open>position.safe\<close> is not \<^verbatim>\<open>None\<close>, and 100 if the player satisfies
  \<^verbatim>\<open>all_pawns_in_home\<close>, else 0. A player with all four pawns home, at distances
  \<open>[0,0,0,0]\<close>, has distance incentive 260, safe incentive 40, winner incentive 100 and
  score 400.
\<close>

theorem player_score_three_terms:
  "player_score d p =
     (260 - sum_list (map d (pawns p)))
     + 10 * int (length (filter (\<lambda>pw. home (position pw) \<or> safe (position pw) \<noteq> None) (pawns p)))
     + (if all_pawns_in_home p then 100 else 0)
   \<and> (all_pawns_in_home p \<and> map d (pawns p) = [0, 0, 0, 0]
        \<longrightarrow> distance_incentive d p = 260 \<and> safe_incentive p = 40
            \<and> winner_incentive p = 100 \<and> player_score d p = 400)"
proof -
  have terms: "player_score d p =
     (260 - sum_list (map d (pawns p)))
     + 10 * int (length (filter (\<lambda>pw. home (position pw) \<or> safe (position pw) \<noteq> None) (pawns p)))
     + (if all_pawns_in_home p then 100 else 0)"
    by (simp add: player_score_def distance_incentive_def safe_incentive_count winner_incentive_def)
  have home4: "distance_incentive d p = 260 \<and> safe_incentive p = 40
      \<and> winner_incentive p = 100 \<and> player_score d p = 400"
    if won: "all_pawns_in_home p" and dist: "map d (pawns p) = [0, 0, 0, 0]"
  proof -
    have "length (map d (pawns p)) = 4"
      by (simp add: dist)
    then have len: "length (pawns p) = 4"
      by simp
    have "\<forall>pw\<in>set (pawns p). home (position pw) \<or> safe (position pw) \<noteq> None"
      using won by (simp add: all_pawns_in_home_def list_all_iff)
    then have "filter (\<lambda>pw. home (position pw) \<or> safe (position pw) \<noteq> None) (pawns p) = pawns p"
      by (rule filter_all)
    then have s: "safe_incentive p = 40"
      by (simp add: safe_incentive_count len)
    have dinc: "distance_incentive d p = 260"
      by (simp add: distance_incentive_def dist)
    have w: "winner_incentive p = 100"
      by (simp add: winner_incentive_def won)
    from s dinc w show ?thesis
      by (simp add: player_score_def)
  qed
  have example: "all_pawns_in_home p \<and> map d (pawns p) = [0, 0, 0, 0]
      \<longrightarrow> distance_incentive d p = 260 \<and> safe_incentive p = 40
          \<and> winner_incentive p = 100 \<and> player_score d p = 400"
    by (intro impI, elim conjE) (rule home4)
  from terms example show ?thesis
    by (rule conjI)
qed

theorem player_score_three_terms_witness:
  "all_pawns_in_home (player_home ''RED'')
   \<and> map square_distance (pawns (player_home ''RED'')) = [0, 0, 0, 0]
   \<and> distance_incentive square_distance (player_home ''RED'') = 260
   \<and> safe_incentive (player_home ''RED'') = 40
   \<and> winner_incentive (player_home ''RED'') = 100
   \<and> player_score square_distance (player_home ''RED'') = 400"
proof -
  have won: "all_pawns_in_home (player_home ''RED'')"
    by (simp add: all_pawns_in_home_def player_home_def pawn_home_def)
  have dist: "map square_distance (pawns (player_home ''RED'')) = [0, 0, 0, 0]"
    by (simp add: player_home_def pawn_home_def square_distance_def)
  from player_score_three_terms [of square_distance "player_home ''RED''"]
  have "all_pawns_in_home (player_home ''RED'')
      \<and> map square_distance (pawns (player_home ''RED'')) = [0, 0, 0, 0]
      \<longrightarrow> distance_incentive square_distance (player_home ''RED'') = 260
        \<and> safe_incentive (player_home ''RED'') = 40
        \<and> winner_incentive (player_home ''RED'') = 100
        \<and> player_score square_distance (player_home ''RED'') = 400"
    by (rule conjunct2)
  with won dist show ?thesis by simp
qed

text \<open>
  C5. For every view, with no condition on the distances, \<^verbatim>\<open>calculate(view)\<close> is at
  least 0: a negative raw comparative value is floored to 0; it is neither returned nor
  raised as an error.
\<close>

theorem calculate_nonnegative:
  "0 \<le> reward d view \<and> 0 \<le> calculate d view
   \<and> (int (length (opponents view)) * player_score d (player view)
          - sum_list (opponent_scores d view) < 0
        \<longrightarrow> calculate d view = 0)"
  by (simp add: calculate_def reward_def Let_def)

theorem calculate_nonnegative_witness:
  "int (length (opponents view_three_players))
       * player_score square_distance (player view_three_players)
     - sum_list (opponent_scores square_distance view_three_players) < 0
   \<and> calculate square_distance view_three_players = 0"
proof -
  have "int (length (opponents view_three_players))
       * player_score square_distance (player view_three_players)
     - sum_list (opponent_scores square_distance view_three_players) < 0"
    by (simp add: view_three_players_def opponent_scores_def sample_scores)
  with calculate_nonnegative [of square_distance view_three_players] show ?thesis
    by blast
qed

text \<open>
  C6. For every player count \<open>p \<ge> 1\<close>, \<^verbatim>\<open>range(p)\<close> is the pair
  \<open>(0.0, 400.0 * (p - 1))\<close>; in particular \<^verbatim>\<open>range(1)\<close> is \<open>(0.0, 0.0)\<close>.
\<close>

theorem range_V1_pair:
  "1 \<le> p \<Longrightarrow> range_V1 p = (0, 400 * real_of_int (p - 1))"
  by (simp add: range_V1_def)

theorem range_V1_pair_witness:
  "(1::int) \<le> 1 \<and> range_V1 1 = (0, 0) \<and> (1::int) \<le> 4 \<and> range_V1 4 = (0, 1200)"
  using range_V1_pair [of 1] range_V1_pair [of 4] by simp

text \<open>
  C8. For every player and every one of its pawns, decreasing the distance to home of
  that pawn, with the home and safe flags of every pawn and everything else unchanged,
  never decreases the score of the player and strictly increases it: the score is
  antitone in the distance of each pawn when the safety and winner terms are unchanged.
  The pawn at index \<open>i\<close> is replaced by a pawn \<open>pw'\<close> with the same flags and a
  smaller distance.
\<close>

theorem player_score_antitone_in_distance:
  assumes "i < length (pawns p)"
    and "home (position pw') = home (position (pawns p ! i))"
    and "(safe (position pw') = None) = (safe (position (pawns p ! i)) = None)"
    and "d pw' < d (pawns p ! i)"
  shows "player_score d p \<le> player_score d (p\<lparr>pawns := (pawns p)[i := pw']\<rparr>)
         \<and> player_score d p < player_score d (p\<lparr>pawns := (pawns p)[i := pw']\<rparr>)
         \<and> player_score d (p\<lparr>pawns := (pawns p)[i := pw']\<rparr>)
             = player_score d p + (d (pawns p ! i) - d pw')"
proof -
  let ?p' = "p\<lparr>pawns := (pawns p)[i := pw']\<rparr>"
  let ?flag = "\<lambda>pw. if home (position pw) \<or> safe (position pw) \<noteq> None then (10::int) else 0"
  have dist: "distance_incentive d ?p' = distance_incentive d p + (d (pawns p ! i) - d pw')"
    using assms(1) by (simp add: distance_incentive_def sum_list_map_update)
  have "?flag pw' = ?flag (pawns p ! i)"
    using assms(2,3) by simp
  then have "map ?flag ((pawns p)[i := pw']) = map ?flag (pawns p)"
    using assms(1) by (rule map_update_same [rotated])
  then have safe: "safe_incentive ?p' = safe_incentive p"
    by (simp add: safe_incentive_def)
  have "map (\<lambda>pw. home (position pw)) ((pawns p)[i := pw']) = map (\<lambda>pw. home (position pw)) (pawns p)"
    using assms(1,2) by (rule map_update_same)
  then have "set (map (\<lambda>pw. home (position pw)) (pawns ?p')) = set (map (\<lambda>pw. home (position pw)) (pawns p))"
    by simp
  then have "all_pawns_in_home ?p' = all_pawns_in_home p"
    unfolding all_pawns_in_home_def list_all_iff set_map by blast
  then have win: "winner_incentive ?p' = winner_incentive p"
    by (simp add: winner_incentive_def)
  have "player_score d ?p' = player_score d p + (d (pawns p ! i) - d pw')"
    by (simp only: player_score_def dist safe win)
  with assms(4) show ?thesis
    by simp
qed

theorem player_score_antitone_in_distance_witness:
  "(2::nat) < length (pawns (player_on ''RED'' 25 25 25 25))
   \<and> square_distance (pawn_on 2 30) < square_distance (pawns (player_on ''RED'' 25 25 25 25) ! 2)
   \<and> player_score square_distance (player_on ''RED'' 25 25 25 25) = 100
   \<and> player_score square_distance
         ((player_on ''RED'' 25 25 25 25)\<lparr>pawns := (pawns (player_on ''RED'' 25 25 25 25))[2 := pawn_on 2 30]\<rparr>)
       = 105"
proof -
  let ?p = "player_on ''RED'' 25 25 25 25"
  have len: "2 < length (pawns ?p)"
    by (simp add: player_on_def)
  have nth: "pawns ?p ! 2 = pawn_on 2 25"
    by (simp add: player_on_def)
  have h: "home (position (pawn_on 2 30)) = home (position (pawns ?p ! 2))"
    and s: "(safe (position (pawn_on 2 30)) = None) = (safe (position (pawns ?p ! 2)) = None)"
    and lt: "square_distance (pawn_on 2 30) < square_distance (pawns ?p ! 2)"
    and diff: "square_distance (pawns ?p ! 2) - square_distance (pawn_on 2 30) = 5"
    by (simp_all add: nth pawn_on_def square_distance_def)
  from player_score_antitone_in_distance [OF len h s lt] diff len lt
  show ?thesis
    by (simp add: sample_scores)
qed

text \<open>
  C9. For every view in which the acting player and each opponent have exactly 4 pawns
  and the distance to home of every pawn lies in \<open>[0, 65]\<close>, the reward lies within the
  declared bounds: \<open>0 \<le> calculate(view) \<le> 400 * |view.opponents|\<close>, that is, inside
  \<^verbatim>\<open>range(1 + |view.opponents|)\<close>.
\<close>

theorem calculate_within_range:
  assumes "\<forall>p\<in>set (player view # map snd (opponents view)).
             length (pawns p) = 4 \<and> (\<forall>pw\<in>set (pawns p). 0 \<le> d pw \<and> d pw \<le> 65)"
  shows "0 \<le> calculate d view
         \<and> calculate d view \<le> 400 * real (length (opponents view))
         \<and> fst (range_V1 (1 + int (length (opponents view)))) \<le> calculate d view
         \<and> calculate d view \<le> snd (range_V1 (1 + int (length (opponents view))))"
proof -
  let ?k = "int (length (opponents view))"
  have own: "player_score d (player view) \<le> 400"
    using assms player_score_bounds [of "player view" d] by simp
  have "\<forall>q\<in>set (map snd (opponents view)). 0 \<le> player_score d q"
    using assms player_score_bounds by simp
  then have "0 \<le> sum_list (opponent_scores d view)"
    unfolding opponent_scores_def by (intro sum_list_nonneg) auto
  moreover have "?k * player_score d (player view) \<le> ?k * 400"
    using own by (intro mult_left_mono) simp_all
  ultimately have "?k * player_score d (player view) - sum_list (opponent_scores d view) \<le> 400 * ?k"
    by simp
  then have "reward d view \<le> 400 * ?k" and "0 \<le> reward d view"
    by (simp_all add: reward_eq_max)
  then have "calculate d view \<le> 400 * real (length (opponents view))" and "0 \<le> calculate d view"
    unfolding calculate_def by (simp_all add: of_int_le_iff [symmetric] del: of_int_le_iff)
  then show ?thesis
    by (simp add: range_V1_def)
qed

theorem calculate_within_range_witness:
  "list_all (\<lambda>p. length (pawns p) = 4
                \<and> list_all (\<lambda>pw. 0 \<le> square_distance pw \<and> square_distance pw \<le> 65) (pawns p))
      (player view_four_players # map snd (opponents view_four_players))
   \<and> 0 \<le> calculate square_distance view_four_players
   \<and> calculate square_distance view_four_players \<le> 1200
   \<and> range_V1 (1 + int (length (opponents view_four_players))) = (0, 1200)"
proof -
  have h: "\<forall>p\<in>set (player view_four_players # map snd (opponents view_four_players)).
      length (pawns p) = 4
      \<and> (\<forall>pw\<in>set (pawns p). 0 \<le> square_distance pw \<and> square_distance pw \<le> 65)"
    by (simp add: view_four_players_def player_on_def pawn_on_def square_distance_def)
  have k: "length (opponents view_four_players) = 3"
    by (simp add: view_four_players_def)
  have h': "list_all (\<lambda>p. length (pawns p) = 4
                \<and> list_all (\<lambda>pw. 0 \<le> square_distance pw \<and> square_distance pw \<le> 65) (pawns p))
      (player view_four_players # map snd (opponents view_four_players))"
    using h unfolding list_all_iff .
  have r: "range_V1 (1 + int (length (opponents view_four_players))) = (0, 1200)"
    by (simp add: k range_V1_def)
  from calculate_within_range [OF h]
  have "0 \<le> calculate square_distance view_four_players
      \<and> calculate square_distance view_four_players \<le> 1200"
    by (simp add: k)
  with h' r show ?thesis
    by (simp only: simp_thms)
qed

section \<open>The input sources\<close>

text \<open>
  C3. For a non-empty list of legal moves, \<^verbatim>\<open>RewardInputSource.choose_move\<close> returns
  the first move of the list whose score under \<^verbatim>\<open>calculate\<close> is maximal: every move
  scores at most as much, and every move before it scores strictly less. So of two moves
  with equal, maximal scores the one chosen is never after the earlier of the two. More
  generally the descending sort keeps the order of the list among the pairs of equal
  score. The hook \<^verbatim>\<open>calculate\<close> returns the move it was given, paired with its score.
\<close>

theorem choose_move_stable_tie_break:
  assumes "legal_moves \<noteq> []"
    and "\<forall>m\<in>set legal_moves. fst (calc view m evaluator) = m"
  shows "(\<exists>i<length legal_moves.
            RewardInputSource_choose_move calc mode view legal_moves evaluator = Inr (legal_moves ! i)
            \<and> (\<forall>j<length legal_moves. snd (calc view (legal_moves ! j) evaluator)
                                         \<le> snd (calc view (legal_moves ! i) evaluator))
            \<and> (\<forall>j<i. snd (calc view (legal_moves ! j) evaluator)
                        < snd (calc view (legal_moves ! i) evaluator))
            \<and> (\<forall>a b. a < b \<and> b < length legal_moves
                   \<and> snd (calc view (legal_moves ! a) evaluator) = snd (calc view (legal_moves ! b) evaluator)
                   \<and> (\<forall>j<length legal_moves. snd (calc view (legal_moves ! j) evaluator)
                                                \<le> snd (calc view (legal_moves ! a) evaluator))
                 \<longrightarrow> i \<le> a))
         \<and> (\<forall>s. filter (\<lambda>e. snd e = s)
                   (sort_reverse snd (map (\<lambda>move. calc view move evaluator) legal_moves))
                = filter (\<lambda>e. snd e = s) (map (\<lambda>move. calc view move evaluator) legal_moves))"
proof -
  let ?score = "\<lambda>j. snd (calc view (legal_moves ! j) evaluator)"
  from choose_move_first_max [OF assms(1), of calc mode view evaluator]
  obtain i where i: "i < length legal_moves"
    and res: "RewardInputSource_choose_move calc mode view legal_moves evaluator
                = Inr (fst (calc view (legal_moves ! i) evaluator))"
    and le: "\<forall>j<length legal_moves. ?score j \<le> ?score i"
    and lt: "\<forall>j<i. ?score j < ?score i"
    by blast
  have "legal_moves ! i \<in> set legal_moves"
    using i by (rule nth_mem)
  with assms(2) have "fst (calc view (legal_moves ! i) evaluator) = legal_moves ! i"
    by (rule bspec)
  with res have res': "RewardInputSource_choose_move calc mode view legal_moves evaluator
                = Inr (legal_moves ! i)"
    by simp
  have pair: "i \<le> a"
    if "a < b" "b < length legal_moves" "\<forall>j<length legal_moves. ?score j \<le> ?score a" for a b
  proof (rule ccontr)
    assume "\<not> i \<le> a"
    then have "a < i"
      by simp
    with lt have "?score a < ?score i"
      by blast
    moreover from that(3) i have "?score i \<le> ?score a"
      by blast
    ultimately show False
      by simp
  qed
  have "\<exists>i<length legal_moves.
            RewardInputSource_choose_move calc mode view legal_moves evaluator = Inr (legal_moves ! i)
            \<and> (\<forall>j<length legal_moves. ?score j \<le> ?score i)
            \<and> (\<forall>j<i. ?score j < ?score i)
            \<and> (\<forall>a b. a < b \<and> b < length legal_moves \<and> ?score a = ?score b
                   \<and> (\<forall>j<length legal_moves. ?score j \<le> ?score a)
                 \<longrightarrow> i \<le> a)"
    using i res' le lt pair by blast
  then show ?thesis
    by (simp only: sort_reverse_stable simp_thms)
qed


theorem choose_move_stable_tie_break_witness:
  "[(0, 30), (0, 40), (1, 40), (2, 10)] \<noteq> ([] :: (nat \<times> nat) list)
   \<and> list_all (\<lambda>m. fst (RewardV1InputSource_calculate square_distance view_duel m advance) = m)
         [(0, 30), (0, 40), (1, 40), (2, 10)]
   \<and> snd (RewardV1InputSource_calculate square_distance view_duel (0, 40) advance)
       = snd (RewardV1InputSource_calculate square_distance view_duel (1, 40) advance)
   \<and> RewardInputSource_choose_move (RewardV1InputSource_calculate square_distance) STANDARD
         view_duel [(0, 30), (0, 40), (1, 40), (2, 10)] advance = Inr (0, 40)"
proof -
  let ?ms = "[(0, 30), (0, 40), (1, 40), (2, 10)] :: (nat \<times> nat) list"
  let ?calc = "RewardV1InputSource_calculate square_distance :: player_view \<Rightarrow> nat \<times> nat \<Rightarrow> _"
  let ?score = "\<lambda>j. snd (?calc view_duel (?ms ! j) advance)"
  have ne: "?ms \<noteq> []"
    by simp
  have hook: "\<forall>m\<in>set ?ms. fst (?calc view_duel m advance) = m"
    by (simp add: RewardV1InputSource_calculate_def)
  have scores: "?score 0 = 5" "?score 1 = 15" "?score 2 = 15" "?score 3 = 0"
    by (simp_all add: RewardV1InputSource_calculate_def advance_rewards)
  from choose_move_stable_tie_break [where legal_moves = "?ms" and calc = "?calc"
      and view = view_duel and evaluator = advance and mode = STANDARD, OF ne hook]
  obtain i where i: "i < length ?ms"
    and res: "RewardInputSource_choose_move ?calc STANDARD view_duel ?ms advance = Inr (?ms ! i)"
    and le: "\<forall>j<length ?ms. ?score j \<le> ?score i"
    and lt: "\<forall>j<i. ?score j < ?score i"
    by blast
  have s1: "?score 1 \<le> ?score i"
    using le [rule_format, of 1] by simp
  from i have "i < 4"
    by simp
  then have "i = 0 \<or> i = 1 \<or> i = 2 \<or> i = 3"
    by arith
  moreover have "i \<noteq> 0"
  proof
    assume "i = 0"
    with s1 have "?score 1 \<le> ?score 0"
      by simp
    with scores show False
      by simp
  qed
  moreover have "i \<noteq> 3"
  proof
    assume "i = 3"
    with s1 have "?score 1 \<le> ?score 3"
      by simp
    with scores show False
      by simp
  qed
  moreover have "i \<noteq> 2"
  proof
    assume "i = 2"
    with lt [rule_format, of 1] have "?score 1 < ?score 2"
      by simp
    with scores show False
      by simp
  qed
  ultimately have "i = 1"
    by blast
  with res have "RewardInputSource_choose_move ?calc STANDARD view_duel ?ms advance = Inr (0, 40)"
    by simp
  moreover have "list_all (\<lambda>m. fst (?calc view_duel m advance) = m) ?ms"
    using hook unfolding list_all_iff .
  ultimately show ?thesis
    using ne scores by simp
qed

text \<open>
  C4. For a non-empty list of legal moves, every view and every evaluator,
  \<^verbatim>\<open>RewardV1InputSource.choose_move\<close> returns a move that is an element of the list,
  and the score of that move is maximal among the candidates.
\<close>

theorem RewardV1_choose_move_member_maximal:
  assumes "legal_moves \<noteq> []"
  shows "\<exists>m\<in>set legal_moves.
           RewardV1InputSource_choose_move d mode view legal_moves evaluator = Inr m
           \<and> (\<forall>m'\<in>set legal_moves.
                  calculate d (evaluator view m') \<le> calculate d (evaluator view m))"
proof -
  let ?calc = "RewardV1InputSource_calculate d :: player_view \<Rightarrow> 'a \<Rightarrow> _"
  from choose_move_first_max [OF assms, of ?calc mode view evaluator]
  obtain i where i: "i < length legal_moves"
    and res: "RewardInputSource_choose_move ?calc mode view legal_moves evaluator
                = Inr (fst (?calc view (legal_moves ! i) evaluator))"
    and le: "\<forall>j<length legal_moves. snd (?calc view (legal_moves ! j) evaluator)
                                      \<le> snd (?calc view (legal_moves ! i) evaluator)"
    by blast
  let ?m = "legal_moves ! i"
  have mem: "?m \<in> set legal_moves"
    using i by (rule nth_mem)
  have chosen: "RewardV1InputSource_choose_move d mode view legal_moves evaluator = Inr ?m"
    using res by (simp add: RewardV1InputSource_choose_move_def RewardV1InputSource_calculate_def)
  have "calculate d (evaluator view m') \<le> calculate d (evaluator view ?m)"
    if "m' \<in> set legal_moves" for m'
  proof -
    from that obtain j where "j < length legal_moves" and "legal_moves ! j = m'"
      by (auto simp: in_set_conv_nth)
    with le show ?thesis
      by (auto simp: RewardV1InputSource_calculate_def)
  qed
  with mem chosen show ?thesis
    by blast
qed

theorem RewardV1_choose_move_member_maximal_witness:
  "[(2, 10), (3, 60), (0, 30)] \<noteq> ([] :: (nat \<times> nat) list)
   \<and> RewardV1InputSource_choose_move square_distance ADULT view_duel
         [(2, 10), (3, 60), (0, 30)] advance = Inr (3, 60)
   \<and> (3, 60) \<in> set [(2, 10), (3, 60), (0, 30 :: nat)]"
proof -
  let ?ms = "[(2, 10), (3, 60), (0, 30)] :: (nat \<times> nat) list"
  have ne: "?ms \<noteq> []"
    by simp
  from RewardV1_choose_move_member_maximal [OF ne, of square_distance ADULT view_duel advance]
  obtain m where mem: "m \<in> set ?ms"
    and res: "RewardV1InputSource_choose_move square_distance ADULT view_duel ?ms advance = Inr m"
    and le: "\<forall>m'\<in>set ?ms. calculate square_distance (advance view_duel m')
                              \<le> calculate square_distance (advance view_duel m)"
    by blast
  from le have best: "calculate square_distance (advance view_duel (3, 60))
                        \<le> calculate square_distance (advance view_duel m)"
    by simp
  from mem have "m = (2, 10) \<or> m = (3, 60) \<or> m = (0, 30)"
    by simp
  moreover have "m \<noteq> (2, 10)"
    using best by (auto simp: advance_rewards)
  moreover have "m \<noteq> (0, 30)"
    using best by (auto simp: advance_rewards)
  ultimately have "m = (3, 60)"
    by blast
  with res show ?thesis
    by simp
qed

text \<open>
  C10. On an empty list of legal moves, \<^verbatim>\<open>RewardInputSource.choose_move\<close> and
  \<^verbatim>\<open>RandomInputSource.choose_move\<close> both fail with \<^verbatim>\<open>IndexError\<close>; neither returns a
  move, and the random generator is left as it was.
\<close>

theorem choose_move_empty_raises:
  "RewardInputSource_choose_move calc mode view [] evaluator = Inl IndexError
   \<and> RewardV1InputSource_choose_move d mode view [] evaluator = Inl IndexError
   \<and> RandomInputSource_choose_move randbelow g mode view [] unused = (Inl IndexError, g)"
  by (simp add: RewardInputSource_choose_move_def RewardV1InputSource_choose_move_def
      sort_reverse_def RandomInputSource_choose_move_def random_choice_def)

text \<open>
  C7. The factory on a name that does not resolve: \<^verbatim>\<open>pydoc.locate\<close> returns \<^verbatim>\<open>None\<close>,
  and \<^verbatim>\<open>issubclass(None, CharacterInputSource)\<close> raises \<^verbatim>\<open>TypeError\<close>, not the
  \<^verbatim>\<open>ValueError\<close> that the docstring of \<^verbatim>\<open>source\<close> announces. A name that resolves to a
  class that is not a \<^verbatim>\<open>CharacterInputSource\<close> raises \<^verbatim>\<open>ValueError\<close>, and the name of
  a concrete source gives an instance of that class.
\<close>

theorem source_unresolved_name:
  "apologies_locate ''NotARealClass'' = PyNone
   \<and> source apologies_locate ''NotARealClass'' = Inl TypeError
   \<and> source apologies_locate ''apologies.reward.RewardCalculatorV1''
       = Inl (ValueError ''apologies.reward.RewardCalculatorV1 is not a CharacterInputSource'')
   \<and> source apologies_locate ''apologies.source.RandomInputSource''
       = Inr \<lparr>class_name = ''apologies.source.RandomInputSource'',
              is_CharacterInputSource = True, is_abstract = False\<rparr>"
  by (simp add: source_def apologies_locate_def)

end
